theory Spec2Isabelle
  imports Complex_Main "HOL-Library.AList"
begin

section \<open>Data model\<close>

text \<open>
  A document is a Python dict from field names to values. Only two kinds of value matter
  to the retrieval core: text and a list of numbers (the \<open>embedding\<close> field). A dict
  is kept as an association list read through \<open>map_of\<close>. Floating-point numbers are
  modelled as reals. The arithmetic the vector store itself performs on them, the
  similarity computed from a distance, is rounded to single precision as the code
  rounds it; the distances the backend reports and the mean taken for the confidence of
  an answer are exact.
\<close>

datatype fieldval = Text string | Vec "real list"

type_synonym document = "(string \<times> fieldval) list"

datatype error =
    ValueError string
  | AssertionError
  | RuntimeError
  | IndexError
  | FileError

section \<open>The similarity-search backend (faiss)\<close>

text \<open>
  The backend is an external library. What the wrapper relies on is modelled here:
  an index of dimension \<open>ix_d\<close> holding the vectors \<open>ix_xb\<close> in insertion order
  (\<open>ntotal\<close> is their number); \<open>IndexFlatL2\<close> is always trained, \<open>IndexIVFFlat\<close>
  needs training on at least \<open>ix_nlist\<close> vectors; a search for \<open>k\<close> neighbours
  answers with exactly \<open>k\<close> (label, squared L2 distance) pairs in ascending distance,
  absent neighbours being reported with label \<open>-1\<close> and the largest float.
\<close>

datatype index_kind = FlatL2 | IVFFlat

record faiss_index =
  ix_d :: nat
  ix_kind :: index_kind
  ix_nlist :: nat
  ix_trained :: bool
  ix_xb :: "real list list"

definition IndexFlatL2 :: "nat \<Rightarrow> faiss_index" where
  "IndexFlatL2 dm =
     \<lparr>ix_d = dm, ix_kind = FlatL2, ix_nlist = 0, ix_trained = True, ix_xb = []\<rparr>"

definition IndexIVFFlat :: "nat \<Rightarrow> nat \<Rightarrow> faiss_index" where
  "IndexIVFFlat dm n_list =
     \<lparr>ix_d = dm, ix_kind = IVFFlat, ix_nlist = n_list, ix_trained = False, ix_xb = []\<rparr>"

definition ntotal :: "faiss_index \<Rightarrow> nat" where
  "ntotal ix = length (ix_xb ix)"

text \<open>\<open>np.array(embeddings).astype('float32')\<close>: a rectangular array of numbers, or
  an error when a row is not a list of numbers or the rows differ in length. The result
  is the rows and their common width.\<close>

fun vec_rows :: "fieldval list \<Rightarrow> real list list option" where
  "vec_rows [] = Some []"
| "vec_rows (Vec v # vs) = map_option ((#) v) (vec_rows vs)"
| "vec_rows (Text t # vs) = None"

definition np_array :: "fieldval list \<Rightarrow> error + (real list list \<times> nat)" where
  "np_array embeddings =
     (case vec_rows embeddings of
        None \<Rightarrow> Inl (ValueError ''could not convert to float array'')
      | Some [] \<Rightarrow> Inl (ValueError ''empty array'')
      | Some (r # rs) \<Rightarrow>
          if \<forall>r' \<in> set rs. length r' = length r then Inr (r # rs, length r)
          else Inl (ValueError ''inhomogeneous shape''))"

definition faiss_train :: "faiss_index \<Rightarrow> real list list \<times> nat \<Rightarrow> error + faiss_index" where
  "faiss_train ix arr =
     (if snd arr \<noteq> ix_d ix then Inl AssertionError
      else if ix_trained ix then Inr ix
      else if length (fst arr) < ix_nlist ix then Inl RuntimeError
      else Inr (ix\<lparr>ix_trained := True\<rparr>))"

definition faiss_add :: "faiss_index \<Rightarrow> real list list \<times> nat \<Rightarrow> error + faiss_index" where
  "faiss_add ix arr =
     (if snd arr \<noteq> ix_d ix then Inl AssertionError
      else if \<not> ix_trained ix then Inl RuntimeError
      else Inr (ix\<lparr>ix_xb := ix_xb ix @ fst arr\<rparr>))"

definition l2sqr :: "real list \<Rightarrow> real list \<Rightarrow> real" where
  "l2sqr x y = (\<Sum>(a, b) \<leftarrow> zip x y. (a - b)\<^sup>2)"

definition FLT_MAX :: real where
  "FLT_MAX = 340282346638528859811704183484516925440"

text \<open>The positions a search visits: all of them for the flat index; for the
  inverted-file index the positions of the probed cluster, which depend on the trained
  centroids and are given by the parameter \<open>probe\<close>.\<close>

definition visited :: "(real list list \<Rightarrow> real list \<Rightarrow> nat list) \<Rightarrow> faiss_index \<Rightarrow> real list \<Rightarrow> nat list" where
  "visited probe ix q =
     (case ix_kind ix of
        FlatL2 \<Rightarrow> [0..<ntotal ix]
      | IVFFlat \<Rightarrow> filter (\<lambda>i. i < ntotal ix) (probe (ix_xb ix) q))"

definition faiss_search ::
  "(real list list \<Rightarrow> real list \<Rightarrow> nat list) \<Rightarrow> faiss_index \<Rightarrow> real list \<Rightarrow> nat
   \<Rightarrow> error + (int \<times> real) list" where
  "faiss_search probe ix q k =
     (if length q \<noteq> ix_d ix then Inl AssertionError
      else if k = 0 then Inl AssertionError
      else if \<not> ix_trained ix then Inl RuntimeError
      else
        let cands = map (\<lambda>i. (int i, l2sqr q (ix_xb ix ! i))) (visited probe ix q);
            best = take k (sort_key snd cands)
        in Inr (best @ replicate (k - length best) (- 1, FLT_MAX)))"

section \<open>Single precision\<close>

text \<open>The backend hands its distances back as \<open>float32\<close> and the result loop of
  \<open>search\<close> never leaves that type: \<open>dist\<close> is an \<open>np.float32\<close> scalar, the Python
  integer \<open>1\<close> takes its type, and so \<open>1 + dist\<close> and \<open>1 / (1 + dist)\<close> are two
  single-precision operations, each rounded to the nearest representable number, ties
  to the even significand. The numbers of the model are reals, so the rounding is
  written out: \<open>f32 x\<close> is the multiple of the unit in the last place of \<open>x\<close> nearest
  to \<open>x\<close>, with 24 bits of significand, binary exponents from \<open>-126\<close> to \<open>127\<close> and
  subnormal numbers below \<open>2 powi (-126)\<close>. Infinities are not represented: \<open>f32\<close>
  is the rounding of the hardware for arguments of magnitude up to \<open>1 + FLT_MAX\<close>,
  and the statements about similarities are made for distances up to \<open>FLT_MAX\<close>.\<close>

definition round_half_even :: "real \<Rightarrow> int" where
  "round_half_even z =
     (if z - of_int \<lfloor>z\<rfloor> < 1 / 2 then \<lfloor>z\<rfloor>
      else if 1 / 2 < z - of_int \<lfloor>z\<rfloor> then \<lfloor>z\<rfloor> + 1
      else if even \<lfloor>z\<rfloor> then \<lfloor>z\<rfloor> else \<lfloor>z\<rfloor> + 1)"

text \<open>The binary exponent of a non-negative number, clamped to the exponents of the
  format: the largest \<open>e\<close> of the range with \<open>2 powi e \<le> x\<close>, or \<open>-126\<close> if none.\<close>

definition f32_exponent :: "real \<Rightarrow> int" where
  "f32_exponent x = last (- 126 # filter (\<lambda>e. 2 powi e \<le> x) [- 125..127])"

definition f32 :: "real \<Rightarrow> real" where
  "f32 x =
     (let a = \<bar>x\<bar>; ulp = 2 powi (f32_exponent a - 23)
      in sgn x * (of_int (round_half_even (a / ulp)) * ulp))"

text \<open>The line \<open>similarity = 1 / (1 + dist)\<close> of \<open>search\<close>.\<close>

definition similarity :: "real \<Rightarrow> real" where
  "similarity dis = f32 (1 / f32 (1 + dis))"

section \<open>FAISSVectorStore\<close>

record FAISSVectorStore =
  dimension :: nat
  index_type :: string
  documents :: "document list"
  index :: faiss_index

definition store_create_index :: "nat \<Rightarrow> string \<Rightarrow> error + faiss_index" where
  "store_create_index dm ty =
     (if ty = ''flat'' then Inr (IndexFlatL2 dm)
      else if ty = ''ivf'' then Inr (IndexIVFFlat dm 100)
      else Inl (ValueError (''Unknown index type: '' @ ty)))"

definition new_store :: "nat \<Rightarrow> string \<Rightarrow> error + FAISSVectorStore" where
  "new_store dm ty =
     (case store_create_index dm ty of
        Inl e \<Rightarrow> Inl e
      | Inr ix \<Rightarrow> Inr \<lparr>dimension = dm, index_type = ty, documents = [], index = ix\<rparr>)"

text \<open>The loop of \<open>add_documents\<close> that collects the embeddings; it raises at the first
  document without the field.\<close>

fun extract_embeddings :: "document list \<Rightarrow> error + fieldval list" where
  "extract_embeddings [] = Inr []"
| "extract_embeddings (doc # docs) =
     (case map_of doc ''embedding'' of
        None \<Rightarrow> Inl (ValueError ''Document missing 'embedding' field'')
      | Some e \<Rightarrow>
          (case extract_embeddings docs of
             Inl err \<Rightarrow> Inl err
           | Inr es \<Rightarrow> Inr (e # es)))"

text \<open>\<open>add_documents\<close> mutates the store and may raise: the model returns the store as
  the call leaves it together with the exception, if any.\<close>

definition add_documents :: "FAISSVectorStore \<Rightarrow> document list \<Rightarrow> FAISSVectorStore \<times> error option" where
  "add_documents s docs =
     (if docs = [] then (s, None)
      else case extract_embeddings docs of
        Inl e \<Rightarrow> (s, Some e)
      | Inr embeddings \<Rightarrow>
         (case np_array embeddings of
            Inl e \<Rightarrow> (s, Some e)
          | Inr embeddings_array \<Rightarrow>
             (case (if index_type s = ''ivf'' \<and> \<not> ix_trained (index s)
                    then faiss_train (index s) embeddings_array else Inr (index s)) of
                Inl e \<Rightarrow> (s, Some e)
              | Inr ix1 \<Rightarrow>
                 (case faiss_add ix1 embeddings_array of
                    Inl e \<Rightarrow> (s\<lparr>index := ix1\<rparr>, Some e)
                  | Inr ix2 \<Rightarrow> (s\<lparr>index := ix2, documents := documents s @ docs\<rparr>, None)))))"

definition clear :: "FAISSVectorStore \<Rightarrow> FAISSVectorStore \<times> error option" where
  "clear s =
     (let s1 = s\<lparr>documents := []\<rparr>
      in case store_create_index (dimension s1) (index_type s1) of
           Inl e \<Rightarrow> (s1, Some e)
         | Inr ix \<Rightarrow> (s1\<lparr>index := ix\<rparr>, None))"

record stats =
  total_vectors :: nat
  stats_dimension :: nat
  stats_index_type :: string
  is_trained :: bool
  total_documents :: nat

definition get_stats :: "FAISSVectorStore \<Rightarrow> stats" where
  "get_stats s =
     \<lparr>total_vectors = ntotal (index s),
      stats_dimension = dimension s,
      stats_index_type = index_type s,
      is_trained = ix_trained (index s),
      total_documents = length (documents s)\<rparr>"

text \<open>Subscripting a list as \<open>self.documents[idx]\<close> does: a position counted from
  the front, or, below zero, from the back; any other subscript raises.\<close>

definition py_index :: "'a list \<Rightarrow> int \<Rightarrow> error + 'a" where
  "py_index xs i =
     (if 0 \<le> i \<and> i < int (length xs) then Inr (xs ! nat i)
      else if i < 0 \<and> - int (length xs) \<le> i then Inr (xs ! nat (int (length xs) + i))
      else Inl IndexError)"

text \<open>The result loop of \<open>search\<close>: a hit is kept when its label is below
  \<open>len(self.documents)\<close>; the document is read at the label and paired with the
  similarity computed from the distance.\<close>

fun prepare_results :: "document list \<Rightarrow> (int \<times> real) list \<Rightarrow> error + (document \<times> real) list" where
  "prepare_results docs [] = Inr []"
| "prepare_results docs ((idx, dis) # hits) =
     (if idx < int (length docs) then
        (case py_index docs idx of
           Inl e \<Rightarrow> Inl e
         | Inr doc \<Rightarrow>
            (case prepare_results docs hits of
               Inl e \<Rightarrow> Inl e
             | Inr results \<Rightarrow> Inr ((doc, similarity dis) # results)))
      else prepare_results docs hits)"

definition search ::
  "(real list list \<Rightarrow> real list \<Rightarrow> nat list) \<Rightarrow> FAISSVectorStore \<Rightarrow> real list \<Rightarrow> nat
   \<Rightarrow> error + (document \<times> real) list" where
  "search probe s query_embedding k =
     (if ntotal (index s) = 0 then Inr []
      else case faiss_search probe (index s) query_embedding k of
             Inl e \<Rightarrow> Inl e
           | Inr hits \<Rightarrow> prepare_results (documents s) hits)"


text \<open>The parallel-array invariant of a store: as many vectors as documents.\<close>

definition consistent :: "FAISSVectorStore \<Rightarrow> bool" where
  "consistent s = (ntotal (index s) = length (documents s))"

text \<open>A caller's calls on one store, each run to its end whether it raises or not.\<close>

datatype store_op = Add "document list" | Clear

fun apply_store_op :: "FAISSVectorStore \<Rightarrow> store_op \<Rightarrow> FAISSVectorStore" where
  "apply_store_op s (Add docs) = fst (add_documents s docs)"
| "apply_store_op s Clear = fst (clear s)"

section \<open>MultiIndexManager\<close>

text \<open>The dict of indexes keeps insertion order; assigning to a known name keeps its
  place, which is what \<open>AList.update\<close> does.\<close>

record MultiIndexManager =
  mgr_dimension :: nat
  indexes :: "(string \<times> FAISSVectorStore) list"

definition new_manager :: "nat \<Rightarrow> MultiIndexManager" where
  "new_manager dm = \<lparr>mgr_dimension = dm, indexes = []\<rparr>"

definition create_index ::
  "MultiIndexManager \<Rightarrow> string \<Rightarrow> string \<Rightarrow> MultiIndexManager \<times> (error + FAISSVectorStore)" where
  "create_index m name ty =
     (case new_store (mgr_dimension m) ty of
        Inl e \<Rightarrow> (m, Inl e)
      | Inr st \<Rightarrow> (m\<lparr>indexes := AList.update name st (indexes m)\<rparr>, Inr st))"

definition get_index :: "MultiIndexManager \<Rightarrow> string \<Rightarrow> error + FAISSVectorStore" where
  "get_index m name =
     (case map_of (indexes m) name of
        None \<Rightarrow> Inl (ValueError (''Index '' @ [CHR 0x27] @ name @ [CHR 0x27] @ '' not found''))
      | Some st \<Rightarrow> Inr st)"

fun search_each ::
  "(real list list \<Rightarrow> real list \<Rightarrow> nat list) \<Rightarrow> (string \<times> FAISSVectorStore) list \<Rightarrow> real list \<Rightarrow> nat
   \<Rightarrow> error + (string \<times> (document \<times> real) list) list" where
  "search_each probe [] q k = Inr []"
| "search_each probe ((name, st) # rest) q k =
     (case search probe st q k of
        Inl e \<Rightarrow> Inl e
      | Inr r \<Rightarrow>
         (case search_each probe rest q k of
            Inl e \<Rightarrow> Inl e
          | Inr rs \<Rightarrow> Inr ((name, r) # rs)))"

definition search_all ::
  "(real list list \<Rightarrow> real list \<Rightarrow> nat list) \<Rightarrow> MultiIndexManager \<Rightarrow> real list \<Rightarrow> nat
   \<Rightarrow> error + (string \<times> (document \<times> real) list) list" where
  "search_all probe m query_embedding k = search_each probe (indexes m) query_embedding k"

subsection \<open>Persisted indexes\<close>

text \<open>The file system maps a path to what is stored there: a serialized index, a pickled
  document list, or something that exists and is neither.\<close>

datatype stored = IndexFile faiss_index | PickleFile "document list" | Garbage

type_synonym filesystem = "string \<Rightarrow> stored option"

definition path_join :: "string \<Rightarrow> string \<Rightarrow> string" where
  "path_join a b =
     (if b \<noteq> [] \<and> hd b = CHR ''/'' then b
      else if a = [] \<or> last a = CHR ''/'' then a @ b
      else a @ ''/'' @ b)"

definition load ::
  "FAISSVectorStore \<Rightarrow> string \<Rightarrow> string \<Rightarrow> filesystem \<Rightarrow> FAISSVectorStore \<times> error option" where
  "load s index_path documents_path fs =
     (case fs index_path of
        Some (IndexFile ix) \<Rightarrow>
          (let s1 = s\<lparr>index := ix\<rparr>
           in case fs documents_path of
                Some (PickleFile docs) \<Rightarrow> (s1\<lparr>documents := docs\<rparr>, None)
              | _ \<Rightarrow> (s1, Some FileError))
      | _ \<Rightarrow> (s, Some FileError))"

definition index_path :: "string \<Rightarrow> string \<Rightarrow> string" where
  "index_path base_path name = path_join base_path (name @ ''_index.faiss'')"

definition docs_path :: "string \<Rightarrow> string \<Rightarrow> string" where
  "docs_path base_path name = path_join base_path (name @ ''_docs.pkl'')"

fun load_all ::
  "filesystem \<Rightarrow> MultiIndexManager \<Rightarrow> string \<Rightarrow> string list \<Rightarrow> MultiIndexManager \<times> error option" where
  "load_all fs m base_path [] = (m, None)"
| "load_all fs m base_path (name # index_names) =
     (let ipath = index_path base_path name;
          dpath = docs_path base_path name
      in if fs ipath \<noteq> None \<and> fs dpath \<noteq> None then
           (case new_store (mgr_dimension m) ''flat'' of
              Inl e \<Rightarrow> (m, Some e)
            | Inr st \<Rightarrow>
               (case load st ipath dpath fs of
                  (st', Some e) \<Rightarrow> (m, Some e)
                | (st', None) \<Rightarrow>
                    load_all fs (m\<lparr>indexes := AList.update name st' (indexes m)\<rparr>) base_path index_names))
         else load_all fs m base_path index_names)"

section \<open>HybridRAGSystem\<close>

text \<open>
  The collaborators outside the retrieval core are parameters: the sentence-embedding
  model, the cluster probing of the inverted-file index, and Python's rendering of a dict
  inside the prompt. The configuration module contributes two constants.
\<close>

record env =
  embed_model :: "string \<Rightarrow> real list"
  ivf_probe :: "real list list \<Rightarrow> real list \<Rightarrow> nat list"
  show_doc :: "document \<Rightarrow> string"

record config =
  TOP_K_RESULTS :: nat
  SIMILARITY_THRESHOLD :: real

definition default_config :: config where
  "default_config = \<lparr>TOP_K_RESULTS = 5, SIMILARITY_THRESHOLD = 3 / 10\<rparr>"

text \<open>The structured store is a collection name mapped to its documents in natural
  order; the vector indexes live in the manager under the three category names.\<close>

record HybridRAGSystem =
  db :: "string \<Rightarrow> document list"
  index_manager :: MultiIndexManager
  policy_text :: string

record response =
  answer :: string
  sources :: "document list"
  source_count :: "nat option"
  confidence :: real
  search_method :: string

datatype event =
    DbFindOne string string
  | Embed string
  | Search string
  | Generate string

definition generate_embedding :: "env \<Rightarrow> string \<Rightarrow> real list" where
  "generate_embedding e text = embed_model e (if text = [] then [] else text)"

subsection \<open>Structured lookup\<close>

definition char_lower :: "char \<Rightarrow> char" where
  "char_lower c =
     (case map_of (zip ''ABCDEFGHIJKLMNOPQRSTUVWXYZ'' ''abcdefghijklmnopqrstuvwxyz'') c of
        Some l \<Rightarrow> l | None \<Rightarrow> c)"

definition char_upper :: "char \<Rightarrow> char" where
  "char_upper c =
     (case map_of (zip ''abcdefghijklmnopqrstuvwxyz'' ''ABCDEFGHIJKLMNOPQRSTUVWXYZ'') c of
        Some u \<Rightarrow> u | None \<Rightarrow> c)"

definition is_digit :: "char \<Rightarrow> bool" where
  "is_digit c = (c \<in> set ''0123456789'')"

text \<open>\<open>re.search(r"emp\d+", q)\<close>: the leftmost position where \<open>emp\<close> is followed by a
  digit; the match takes every digit that follows.\<close>

definition match_emp_here :: "string \<Rightarrow> string option" where
  "match_emp_here s =
     (if take 3 s = ''emp'' \<and> takeWhile is_digit (drop 3 s) \<noteq> []
      then Some (''emp'' @ takeWhile is_digit (drop 3 s)) else None)"

fun re_search_emp :: "string \<Rightarrow> string option" where
  "re_search_emp [] = None"
| "re_search_emp (c # cs) =
     (case match_emp_here (c # cs) of
        Some m \<Rightarrow> Some m
      | None \<Rightarrow> re_search_emp cs)"

definition find_one :: "(string \<Rightarrow> document list) \<Rightarrow> string \<Rightarrow> document \<Rightarrow> document option" where
  "find_one d collection_name qry =
     find (\<lambda>doc. \<forall>(k, v) \<in> set qry. map_of doc k = Some v) (d collection_name)"

definition try_structured_query ::
  "(string \<Rightarrow> document list) \<Rightarrow> string \<Rightarrow> event list \<times> document list option" where
  "try_structured_query d query_text =
     (let q = map char_lower query_text
      in case re_search_emp q of
           Some m \<Rightarrow>
             (let emp_id = map char_upper m
              in ([DbFindOne ''employees'' emp_id],
                  (case find_one d ''employees'' [(''emp_id'', Text emp_id)] of
                     Some doc \<Rightarrow> if doc \<noteq> [] then Some [doc] else None
                   | None \<Rightarrow> None)))
         | None \<Rightarrow> ([], None))"

subsection \<open>Semantic search\<close>

fun search_names ::
  "(real list list \<Rightarrow> real list \<Rightarrow> nat list) \<Rightarrow> MultiIndexManager \<Rightarrow> real list \<Rightarrow> nat \<Rightarrow> string list
   \<Rightarrow> event list \<times> (error + (document \<times> real) list)" where
  "search_names probe m qv k [] = ([], Inr [])"
| "search_names probe m qv k (name # names) =
     (case get_index m name of
        Inl e \<Rightarrow> ([], Inl e)
      | Inr idx \<Rightarrow>
         (case search probe idx qv k of
            Inl e \<Rightarrow> ([Search name], Inl e)
          | Inr r \<Rightarrow>
             (case search_names probe m qv k names of
                (ev, Inl e) \<Rightarrow> (Search name # ev, Inl e)
              | (ev, Inr rs) \<Rightarrow> (Search name # ev, Inr (r @ rs)))))"

text \<open>\<open>results.sort(key=lambda x: x[1], reverse=True)\<close> is a stable sort in descending
  similarity.\<close>

definition query_semantic ::
  "env \<Rightarrow> HybridRAGSystem \<Rightarrow> string \<Rightarrow> string \<Rightarrow> nat
   \<Rightarrow> event list \<times> (error + (document \<times> real) list)" where
  "query_semantic e sys query_text index_name k =
     (let query_vector = generate_embedding e query_text
      in if index_name = ''all'' then
           (case search_names (ivf_probe e) (index_manager sys) query_vector k
                   [''employees'', ''attendance'', ''leave''] of
              (ev, Inl err) \<Rightarrow> (Embed query_text # ev, Inl err)
            | (ev, Inr results) \<Rightarrow>
                (Embed query_text # ev, Inr (take k (sort_key (\<lambda>x. - snd x) results))))
         else
           (case get_index (index_manager sys) index_name of
              Inl err \<Rightarrow> ([Embed query_text], Inl err)
            | Inr idx \<Rightarrow>
                (Embed query_text # [Search index_name],
                 search (ivf_probe e) idx query_vector k)))"

subsection \<open>Answer synthesis\<close>

definition digit_char :: "nat \<Rightarrow> char" where
  "digit_char n = ''0123456789'' ! n"

fun show_nat :: "nat \<Rightarrow> string" where
  "show_nat n = (if n < 10 then [digit_char n] else show_nat (n div 10) @ [digit_char (n mod 10)])"

definition NL :: string where
  "NL = [CHR 0x0A]"

definition build_hr_query_prompt :: "env \<Rightarrow> string \<Rightarrow> document list \<Rightarrow> string \<Rightarrow> string" where
  "build_hr_query_prompt e qry docs policy_context =
     ''You are a helpful HR assistant.'' @ NL
     @ (if policy_context \<noteq> [] then ''Company Policy:'' @ NL @ policy_context @ NL else [])
     @ (if docs \<noteq> []
        then ''Reference Documents:'' @ NL
             @ concat (map (\<lambda>(i, d). ''['' @ show_nat i @ ''] '' @ show_doc e d @ NL)
                           (zip [1..<Suc (length docs)] docs))
        else [])
     @ NL @ ''Answer the question clearly:'' @ NL @ qry @ NL"

definition generate_response :: "string \<Rightarrow> string" where
  "generate_response prompt = ''Simulated response to prompt:'' @ NL @ prompt"

definition format_response :: "string \<Rightarrow> document list \<Rightarrow> real \<Rightarrow> response" where
  "format_response ans docs conf =
     \<lparr>answer = ans, sources = docs, source_count = Some (length docs),
      confidence = conf, search_method = []\<rparr>"

subsection \<open>The query path\<close>

text \<open>\<open>results\<close> holds plain documents after a structured match and (document,
  similarity) tuples after semantic search.\<close>

datatype results = Docs "document list" | Scored "(document \<times> real) list"

definition results_empty :: "results \<Rightarrow> bool" where
  "results_empty r = (case r of Docs ds \<Rightarrow> ds = [] | Scored rs \<Rightarrow> rs = [])"

definition apply_threshold :: "config \<Rightarrow> (document \<times> real) list \<Rightarrow> (document \<times> real) list" where
  "apply_threshold cfg semantic_results =
     filter (\<lambda>(doc, sim). sim \<ge> SIMILARITY_THRESHOLD cfg) semantic_results"

definition mean :: "real list \<Rightarrow> real" where
  "mean xs = sum_list xs / real (length xs)"

definition no_information :: "string \<Rightarrow> response" where
  "no_information method =
     \<lparr>answer = ''No relevant information found. Please rephrase your question.'',
      sources = [], source_count = None, confidence = 0, search_method = method\<rparr>"

definition query ::
  "env \<Rightarrow> config \<Rightarrow> HybridRAGSystem \<Rightarrow> string \<Rightarrow> bool \<Rightarrow> event list \<times> (error + response)" where
  "query e cfg sys query_text use_structured =
     (let (ev1, results1, method) =
            (if use_structured then
               (case try_structured_query (db sys) query_text of
                  (ev, Some structured) \<Rightarrow>
                    if structured \<noteq> [] then (ev, Docs structured, ''structured'')
                    else (ev, Docs [], ''semantic'')
                | (ev, None) \<Rightarrow> (ev, Docs [], ''semantic''))
             else ([], Docs [], ''semantic''));
          (ev2, results2) =
            (if results_empty results1 then
               (case query_semantic e sys query_text ''all'' (TOP_K_RESULTS cfg) of
                  (ev, Inl err) \<Rightarrow> (ev, Inl err)
                | (ev, Inr semantic_results) \<Rightarrow>
                    (ev, Inr (Scored (apply_threshold cfg semantic_results))))
             else ([], Inr results1))
      in case results2 of
           Inl err \<Rightarrow> (ev1 @ ev2, Inl err)
         | Inr res \<Rightarrow>
             if results_empty res then (ev1 @ ev2, Inr (no_information method))
             else
               (let (docs, conf) =
                      (case res of
                         Scored rs \<Rightarrow> (map fst rs, mean (map snd rs))
                       | Docs ds \<Rightarrow> (ds, 9 / 10));
                    prompt = build_hr_query_prompt e query_text docs (take 2000 (policy_text sys));
                    ans = generate_response prompt
                in (ev1 @ ev2 @ [Generate prompt],
                    Inr ((format_response ans docs conf)\<lparr>search_method := method\<rparr>))))"

text \<open>\<open>load_indexes\<close> reloads the three categories and then looks each of them up
  again to rebind the system's handles.\<close>

fun lookup_all :: "MultiIndexManager \<Rightarrow> string list \<Rightarrow> error option" where
  "lookup_all m [] = None"
| "lookup_all m (name # names) =
     (case get_index m name of Inl e \<Rightarrow> Some e | Inr st \<Rightarrow> lookup_all m names)"

definition load_indexes ::
  "filesystem \<Rightarrow> HybridRAGSystem \<Rightarrow> string \<Rightarrow> HybridRAGSystem \<times> error option" where
  "load_indexes fs sys base_path =
     (case load_all fs (index_manager sys) base_path [''employees'', ''attendance'', ''leave''] of
        (m, Some e) \<Rightarrow> (sys\<lparr>index_manager := m\<rparr>, Some e)
      | (m, None) \<Rightarrow>
          (sys\<lparr>index_manager := m\<rparr>, lookup_all m [''employees'', ''attendance'', ''leave'']))"

text \<open>The constructor connects to the structured store and registers the three flat
  indexes.\<close>

definition new_system :: "(string \<Rightarrow> document list) \<Rightarrow> nat \<Rightarrow> HybridRAGSystem" where
  "new_system database embedding_dm =
     (let m0 = new_manager embedding_dm;
          m1 = fst (create_index m0 ''employees'' ''flat'');
          m2 = fst (create_index m1 ''attendance'' ''flat'');
          m3 = fst (create_index m2 ''leave'' ''flat'')
      in \<lparr>db = database, index_manager = m3, policy_text = []\<rparr>)"

section \<open>Example data\<close>

text \<open>Three employee records with three-dimensional embeddings; seen from the origin
  their squared distances are 0, 1 and 3 and their similarities 1, 0.5 and 0.25, all of
  them single-precision numbers.\<close>

definition alice :: document where
  "alice = [(''emp_id'', Text ''EMP1001''), (''name'', Text ''Alice''),
            (''embedding'', Vec [0, 0, 0])]"

definition bob :: document where
  "bob = [(''emp_id'', Text ''EMP1002''), (''name'', Text ''Bob''),
          (''embedding'', Vec [1, 0, 0])]"

definition carol :: document where
  "carol = [(''emp_id'', Text ''EMP1003''), (''name'', Text ''Carol''),
            (''embedding'', Vec [1, 1, 1])]"

definition empty_flat :: FAISSVectorStore where
  "empty_flat = \<lparr>dimension = 3, index_type = ''flat'', documents = [], index = IndexFlatL2 3\<rparr>"

definition staff_store :: FAISSVectorStore where
  "staff_store =
     \<lparr>dimension = 3, index_type = ''flat'', documents = [alice, bob, carol],
      index = \<lparr>ix_d = 3, ix_kind = FlatL2, ix_nlist = 0, ix_trained = True,
               ix_xb = [[0, 0, 0], [1, 0, 0], [1, 1, 1]]\<rparr>\<rparr>"

definition origin_env :: env where
  "origin_env =
     \<lparr>embed_model = (\<lambda>t. [0, 0, 0]), ivf_probe = (\<lambda>xb q. []), show_doc = (\<lambda>d. ''{}'')\<rparr>"

definition staff_db :: "string \<Rightarrow> document list" where
  "staff_db c = (if c = ''employees'' then [alice, bob, carol] else [])"

definition staff_system :: HybridRAGSystem where
  "staff_system =
     \<lparr>db = staff_db,
      index_manager =
        \<lparr>mgr_dimension = 3,
         indexes = [(''employees'', staff_store), (''attendance'', empty_flat),
                    (''leave'', empty_flat)]\<rparr>,
      policy_text = []\<rparr>"

definition saved_fs :: filesystem where
  "saved_fs =
     map_of [(''idx/employees_index.faiss'', IndexFile (index staff_store)),
             (''idx/employees_docs.pkl'', PickleFile [alice, bob, carol]),
             (''idx/attendance_index.faiss'', IndexFile (IndexFlatL2 3)),
             (''idx/leave_index.faiss'', IndexFile (IndexFlatL2 3)),
             (''idx/leave_docs.pkl'', PickleFile [])]"




section \<open>Adding documents\<close>

lemma extract_embeddings_Inl:
  "extract_embeddings docs = Inl e \<Longrightarrow> e = ValueError ''Document missing 'embedding' field''"
  by (induction docs arbitrary: e) (auto split: option.splits sum.splits)

lemma extract_embeddings_Inr:
  "extract_embeddings docs = Inr es \<Longrightarrow> doc \<in> set docs \<Longrightarrow> map_of doc ''embedding'' \<noteq> None"
  by (induction docs arbitrary: es) (auto split: option.splits sum.splits)

lemma extract_embeddings_missing:
  assumes "\<exists>doc \<in> set docs. map_of doc ''embedding'' = None"
  shows "extract_embeddings docs = Inl (ValueError ''Document missing 'embedding' field'')"
proof (cases "extract_embeddings docs")
  case (Inl e)
  then show ?thesis using extract_embeddings_Inl by blast
next
  case (Inr es)
  then show ?thesis using assms extract_embeddings_Inr by blast
qed

text \<open>
  Claim C7. When a non-empty batch holds a document without an \<open>embedding\<close> field,
  \<open>add_documents\<close> raises the validation error and leaves the store as it was: neither
  the vector index nor the document sequence has changed.
\<close>

theorem add_documents_missing_embedding:
  assumes "docs \<noteq> []" and "\<exists>doc \<in> set docs. map_of doc ''embedding'' = None"
  shows "add_documents s docs = (s, Some (ValueError ''Document missing 'embedding' field''))"
  using assms by (simp add: add_documents_def extract_embeddings_missing)

theorem add_documents_missing_embedding_witness:
  "add_documents staff_store [alice, [(''emp_id'', Text ''EMP2'')]]
   = (staff_store, Some (ValueError ''Document missing 'embedding' field''))"
  using add_documents_missing_embedding [of "[alice, [(''emp_id'', Text ''EMP2'')]]" staff_store]
  by simp

section \<open>Rounding to single precision\<close>



lemma rhe_of_int: "round_half_even (of_int n) = n"
  by (simp add: round_half_even_def)




text \<open>The exponent is the largest admissible one, so it is monotone and is determined
  by the binade its argument lies in.\<close>

lemma last_sorted_Max:
  fixes xs :: "int list"
  assumes "sorted xs" and "xs \<noteq> []"
  shows "last xs = Max (set xs)"
  using assms
proof (induction xs)
  case Nil
  then show ?case by simp
next
  case (Cons a xs)
  show ?case
  proof (cases "xs = []")
    case True
    then show ?thesis by simp
  next
    case False
    with Cons have l: "last xs = Max (set xs)" by simp
    have "last xs \<in> set xs" using False by simp
    then have "a \<le> last xs" using Cons.prems(1) by simp
    then have "a \<le> Max (set xs)" using l by simp
    moreover have "Max (insert a (set xs)) = max a (Max (set xs))"
      using False by (intro Max_insert) simp_all
    ultimately show ?thesis using False l by (simp add: max_def)
  qed
qed

lemma f32_exponent_Max:
  "f32_exponent x = Max (insert (- 126) {e. - 125 \<le> e \<and> e \<le> 127 \<and> 2 powi e \<le> x})"
proof -
  let ?F = "filter (\<lambda>e. 2 powi e \<le> x) [- 125..127]"
  have st: "set ?F = {e. - 125 \<le> e \<and> e \<le> 127 \<and> 2 powi e \<le> x}"
    by (auto simp del: upto_rec_numeral)
  have "sorted [- 125..127::int]" by (rule sorted_upto)
  then have "sorted ?F" by (rule sorted_wrt_filter)
  moreover have "\<forall>e \<in> set ?F. - 126 \<le> e" unfolding st by auto
  ultimately have "sorted (- 126 # ?F)" by (simp only: sorted_simps)
  then have "last (- 126 # ?F) = Max (set (- 126 # ?F))" by (rule last_sorted_Max) simp
  also have "set (- 126 # ?F) = insert (- 126) {e. - 125 \<le> e \<and> e \<le> 127 \<and> 2 powi e \<le> x}"
    using st by (simp only: list.set)
  finally show ?thesis by (simp only: f32_exponent_def)
qed

lemma f32_exponent_fin: "finite (insert (- 126 :: int) {e. - 125 \<le> e \<and> e \<le> 127 \<and> 2 powi e \<le> (x::real)})"
proof -
  have "{e. - 125 \<le> e \<and> e \<le> 127 \<and> 2 powi e \<le> x} \<subseteq> {- 125..127}" by auto
  then show ?thesis by (simp add: finite_subset)
qed





lemma f32_exponent_eqI:
  assumes "- 126 \<le> e" and "e \<le> 127"
    and "- 126 < e \<Longrightarrow> 2 powi e \<le> x"
    and "e < 127 \<Longrightarrow> x < 2 powi (e + 1)"
  shows "f32_exponent x = e"
  unfolding f32_exponent_Max
proof (rule Max_eqI)
  show "finite (insert (- 126) {e. - 125 \<le> e \<and> e \<le> 127 \<and> 2 powi e \<le> x})"
    by (rule f32_exponent_fin)
  show "e \<in> insert (- 126) {e. - 125 \<le> e \<and> e \<le> 127 \<and> 2 powi e \<le> x}"
    using assms(1,2,3) by (cases "e = - 126") auto
next
  fix e'
  assume m: "e' \<in> insert (- 126) {e. - 125 \<le> e \<and> e \<le> 127 \<and> 2 powi e \<le> x}"
  show "e' \<le> e"
  proof (rule ccontr)
    assume "\<not> e' \<le> e"
    then have lt: "e < e'" by simp
    with m assms(1) have m': "e' \<le> 127" "2 powi e' \<le> x" by auto
    from lt m'(1) have "e < 127" by simp
    from assms(4) [OF this] have "x < 2 powi (e + 1)" .
    also have "(2::real) powi (e + 1) \<le> 2 powi e'"
      using lt by (intro power_int_increasing) auto
    finally show False using m'(2) by simp
  qed
qed

lemma f32_nonneg_eq:
  assumes "0 \<le> x"
  shows "f32 x = of_int (round_half_even (x / 2 powi (f32_exponent x - 23)))
                 * 2 powi (f32_exponent x - 23)"
proof (cases "x = 0")
  case True
  then show ?thesis by (simp add: f32_def rhe_of_int [of 0, simplified])
next
  case False
  with assms have "0 < x" by simp
  then show ?thesis by (simp add: f32_def Let_def)
qed


text \<open>The values the examples need, and the order properties of the similarity.\<close>

lemma f32_at:
  assumes "0 \<le> x" and "- 126 \<le> e" and "e \<le> 127"
    and "- 126 < e \<Longrightarrow> 2 powi e \<le> x"
    and "e < 127 \<Longrightarrow> x < 2 powi (e + 1)"
  shows "f32 x = of_int (round_half_even (x / 2 powi (e - 23))) * 2 powi (e - 23)"
  using f32_nonneg_eq [OF assms(1)] f32_exponent_eqI [OF assms(2-5)] by simp

lemma f32_1: "f32 1 = 1"
  using f32_at [of 1 0] by (simp add: round_half_even_def)

lemma f32_2: "f32 2 = 2"
  using f32_at [of 2 1] by (simp add: round_half_even_def)

lemma f32_4: "f32 4 = 4"
  using f32_at [of 4 2] by (simp add: round_half_even_def)

lemma f32_half: "f32 (1 / 2) = 1 / 2"
  using f32_at [of "1 / 2" "- 1"] by (simp add: round_half_even_def)

lemma f32_quarter: "f32 (1 / 4) = 1 / 4"
  using f32_at [of "1 / 4" "- 2"] by (simp add: round_half_even_def)


lemma f32_top: "f32 (1 + FLT_MAX) = FLT_MAX"
  using f32_at [of "1 + FLT_MAX" 127] by (simp add: round_half_even_def FLT_MAX_def)

lemma f32_bottom: "f32 (1 / FLT_MAX) = 1 / 2 ^ 128"
  using f32_at [of "1 / FLT_MAX" "- 126"] by (simp add: round_half_even_def FLT_MAX_def)

lemma similarity_0: "similarity 0 = 1"
  by (simp add: similarity_def f32_1)

lemma similarity_1: "similarity 1 = 1 / 2"
  by (simp add: similarity_def f32_2 f32_half)

lemma similarity_3: "similarity 3 = 1 / 4"
  by (simp add: similarity_def f32_4 f32_quarter)


lemma similarity_FLT_MAX: "similarity FLT_MAX = 1 / 2 ^ 128"
  by (simp add: similarity_def f32_top f32_bottom)





section \<open>Searching a store\<close>

lemma vec_rows_length: "vec_rows es = Some rows \<Longrightarrow> length rows = length es"
  by (induction es arbitrary: rows rule: vec_rows.induct) auto

lemma np_array_length: "np_array es = Inr (rows, w) \<Longrightarrow> length rows = length es"
  by (auto simp: np_array_def dest: vec_rows_length split: option.splits list.splits if_splits)

lemma extract_embeddings_length: "extract_embeddings docs = Inr es \<Longrightarrow> length es = length docs"
  by (induction docs arbitrary: es) (auto split: option.splits sum.splits)

lemma faiss_train_xb: "faiss_train ix arr = Inr ix' \<Longrightarrow> ix_xb ix' = ix_xb ix"
  by (auto simp: faiss_train_def split: if_splits)

lemma faiss_add_xb: "faiss_add ix arr = Inr ix' \<Longrightarrow> ix_xb ix' = ix_xb ix @ fst arr"
  by (auto simp: faiss_add_def split: if_splits)

lemma add_documents_consistent:
  assumes "consistent s"
  shows "consistent (fst (add_documents s docs))"
  using assms
  by (auto simp: add_documents_def consistent_def ntotal_def
      dest!: faiss_train_xb faiss_add_xb np_array_length extract_embeddings_length
      split: sum.splits if_splits)


lemma prepare_results_in_range:
  assumes "\<forall>(i, d) \<in> set hits. - int (length docs) \<le> i \<and> i < int (length docs)"
  shows "prepare_results docs hits =
         Inr (map (\<lambda>(i, d). (docs ! nat (if i < 0 then int (length docs) + i else i), similarity d)) hits)"
  using assms
  by (induction hits) (auto simp: py_index_def Let_def)


lemma flat_hits:
  assumes "ix_kind ix = FlatL2" "ix_trained ix" "length q = ix_d ix" "0 < k"
  shows "faiss_search probe ix q k =
     Inr (take k (sort_key snd (map (\<lambda>i. (int i, l2sqr q (ix_xb ix ! i))) [0..<ntotal ix]))
          @ replicate (k - min k (ntotal ix)) (- 1, FLT_MAX))"
  using assms by (simp add: faiss_search_def visited_def Let_def min_def)

lemma FLT_MAX_small: "0 < similarity FLT_MAX \<and> similarity FLT_MAX < 1 / 10 ^ 38"
  by (simp add: similarity_FLT_MAX)

text \<open>
  Claim C10. A flat index holding \<open>n\<close> documents, asked for \<open>k > n\<close> neighbours,
  answers with exactly \<open>k\<close> pairs: the backend fills the missing neighbours with label
  \<open>-1\<close>, the guard of the result loop lets that label through, and negative indexing
  makes each of the last \<open>k - n\<close> pairs carry the last document, with a similarity
  below \<open>1 / 10 ^ 38\<close>.
\<close>

theorem search_over_request:
  assumes "ix_kind (index s) = FlatL2" and "ix_trained (index s)"
    and "length q = ix_d (index s)"
    and "ntotal (index s) = n" and "length (documents s) = n"
    and "0 < n" and "n < k"
  shows "\<exists>res. search probe s q k = Inr res \<and> length res = k
           \<and> drop n res = replicate (k - n) (last (documents s), similarity FLT_MAX)
           \<and> 0 < similarity FLT_MAX \<and> similarity FLT_MAX < 1 / 10 ^ 38"
proof -
  let ?docs = "documents s"
  let ?cands = "map (\<lambda>i. (int i, l2sqr q (ix_xb (index s) ! i))) [0..<n]"
  let ?best = "sort_key snd ?cands"
  let ?pad = "replicate (k - n) (- 1 :: int, FLT_MAX)"
  let ?g = "\<lambda>(i, d). (?docs ! nat (if i < 0 then int (length ?docs) + i else i), similarity d)"
  have k0: "0 < k" using assms by simp
  have hits: "faiss_search probe (index s) q k = Inr (?best @ ?pad)"
    using flat_hits [OF assms(1-3) k0, of probe] assms(4,7) by (simp add: min_def)
  have lb: "length ?best = n" by simp
  have "set ?best = set ?cands" by simp
  then have rng: "\<forall>(i, d) \<in> set (?best @ ?pad). - int (length ?docs) \<le> i \<and> i < int (length ?docs)"
    using assms(5,6) by (auto simp: Suc_le_eq)
  have res: "search probe s q k = Inr (map ?g (?best @ ?pad))"
    using hits prepare_results_in_range [OF rng] assms(4,6) by (simp add: search_def)
  have "drop n (map ?g (?best @ ?pad)) = map ?g ?pad"
    using lb by (simp add: drop_map)
  also have "\<dots> = replicate (k - n) (?docs ! (n - 1), similarity FLT_MAX)"
    using assms(5,6) by (simp add: nat_diff_distrib)
  also have "?docs ! (n - 1) = last ?docs"
    using assms(5,6) by (metis last_conv_nth length_0_conv less_numeral_extra(3))
  finally have dr: "drop n (map ?g (?best @ ?pad)) = replicate (k - n) (last ?docs, similarity FLT_MAX)" .
  have len: "length (map ?g (?best @ ?pad)) = k" using assms(7) by simp
  show ?thesis using res dr len FLT_MAX_small by blast
qed

lemma staff_search_5:
  "search p staff_store [0, 0, 0] 5 =
     Inr [(alice, 1), (bob, 1 / 2), (carol, 1 / 4),
          (carol, similarity FLT_MAX), (carol, similarity FLT_MAX)]"
  by (simp add: search_def staff_store_def ntotal_def faiss_search_def visited_def l2sqr_def
      py_index_def upt_rec power2_eq_square eval_nat_numeral
      similarity_0 similarity_1 similarity_3)

theorem search_over_request_witness:
  "ix_kind (index staff_store) = FlatL2 \<and> ix_trained (index staff_store)
   \<and> length [0, 0, 0 :: real] = ix_d (index staff_store)
   \<and> ntotal (index staff_store) = 3 \<and> length (documents staff_store) = 3
   \<and> (\<exists>res. search (ivf_probe origin_env) staff_store [0, 0, 0] 5 = Inr res \<and> length res = 5
         \<and> drop 3 res = replicate 2 (carol, similarity FLT_MAX))"
proof -
  have h: "ix_kind (index staff_store) = FlatL2" "ix_trained (index staff_store)"
    "length [0, 0, 0 :: real] = ix_d (index staff_store)"
    "ntotal (index staff_store) = 3" "length (documents staff_store) = 3"
    by (simp_all add: staff_store_def ntotal_def)
  have l: "last (documents staff_store) = carol" by (simp add: staff_store_def)
  obtain res where "search (ivf_probe origin_env) staff_store [0, 0, 0] 5 = Inr res" "length res = 5"
    "drop 3 res = replicate 2 (carol, similarity FLT_MAX)"
    using search_over_request [OF h, of 5 "ivf_probe origin_env"] l by auto
  then show ?thesis using h by blast
qed

text \<open>
  Claim C1. On the three-document example store a search for four neighbours gets the
  labels 0, 1, 2 and \<open>-1\<close> from the backend, and the fourth result pairs the document
  at position 2 with the distance reported for the absent neighbour. The counts reported
  by \<open>get_stats\<close> agree.
\<close>

theorem search_keeps_absent_neighbour:
  "faiss_search (ivf_probe origin_env) (index staff_store) [0, 0, 0] 4
     = Inr [(0, 0), (1, 1), (2, 3), (- 1, FLT_MAX)]
   \<and> search (ivf_probe origin_env) staff_store [0, 0, 0] 4
     = Inr [(alice, 1), (bob, 1 / 2), (carol, 1 / 4), (carol, similarity FLT_MAX)]
   \<and> get_stats staff_store
     = \<lparr>total_vectors = 3, stats_dimension = 3, stats_index_type = ''flat'',
        is_trained = True, total_documents = 3\<rparr>"
  by (simp add: search_def staff_store_def ntotal_def faiss_search_def visited_def l2sqr_def
      py_index_def upt_rec power2_eq_square eval_nat_numeral get_stats_def
      similarity_0 similarity_1 similarity_3)

lemma visited_bound: "i \<in> set (visited probe ix q) \<Longrightarrow> i < ntotal ix"
  by (auto simp: visited_def split: index_kind.splits)

lemma faiss_search_hits:
  assumes "faiss_search probe ix q k = Inr hits" and "(i, d) \<in> set hits"
  shows "(i = - 1 \<and> d = FLT_MAX) \<or> (0 \<le> i \<and> i < int (ntotal ix) \<and> d = l2sqr q (ix_xb ix ! nat i))"
proof -
  define cands where "cands = map (\<lambda>i. (int i, l2sqr q (ix_xb ix ! i))) (visited probe ix q)"
  define best where "best = take k (sort_key snd cands)"
  from assms(1) have "hits = best @ replicate (k - length best) (- 1, FLT_MAX)"
    by (simp add: faiss_search_def Let_def cands_def best_def split: if_splits)
  with assms(2) have "(i, d) \<in> set best \<or> (i, d) = (- 1, FLT_MAX)"
    by auto
  then show ?thesis
  proof
    assume "(i, d) \<in> set best"
    then have "(i, d) \<in> set (sort_key snd cands)"
      unfolding best_def by (rule in_set_takeD)
    then have "(i, d) \<in> set cands" by simp
    then obtain j where "j \<in> set (visited probe ix q)" "i = int j" "d = l2sqr q (ix_xb ix ! j)"
      unfolding cands_def by auto
    then show ?thesis using visited_bound [of j probe ix q] by simp
  next
    assume "(i, d) = (- 1, FLT_MAX)"
    then show ?thesis by simp
  qed
qed









lemma staff_search_2:
  "search p staff_store [0, 0, 0] 2 = Inr [(alice, 1), (bob, 1 / 2)]"
  by (simp add: search_def staff_store_def ntotal_def faiss_search_def visited_def l2sqr_def
      py_index_def upt_rec power2_eq_square eval_nat_numeral similarity_0 similarity_1)





section \<open>Merging and filtering semantic results\<close>

lemma filter_length_mono:
  assumes "\<And>x. P x \<Longrightarrow> Q x"
  shows "length (filter P xs) \<le> length (filter Q xs)"
  using assms by (induction xs) auto

text \<open>
  Claim C5. Every result that survives the threshold has a similarity of at least the
  configured threshold, and over the same semantic results a threshold that is at least
  as large lets at most as many results through.
\<close>

theorem threshold_filtering:
  "(\<forall>(doc, sim) \<in> set (apply_threshold cfg rs). SIMILARITY_THRESHOLD cfg \<le> sim)
   \<and> (SIMILARITY_THRESHOLD cfg \<le> SIMILARITY_THRESHOLD cfg' \<longrightarrow>
        length (apply_threshold cfg' rs) \<le> length (apply_threshold cfg rs))"
proof
  show "\<forall>(doc, sim) \<in> set (apply_threshold cfg rs). SIMILARITY_THRESHOLD cfg \<le> sim"
    by (auto simp: apply_threshold_def)
next
  show "SIMILARITY_THRESHOLD cfg \<le> SIMILARITY_THRESHOLD cfg' \<longrightarrow>
        length (apply_threshold cfg' rs) \<le> length (apply_threshold cfg rs)"
  proof
    assume le: "SIMILARITY_THRESHOLD cfg \<le> SIMILARITY_THRESHOLD cfg'"
    show "length (apply_threshold cfg' rs) \<le> length (apply_threshold cfg rs)"
      unfolding apply_threshold_def
      by (rule filter_length_mono) (use le in auto)
  qed
qed

theorem threshold_filtering_witness:
  "apply_threshold default_config [(alice, 1), (bob, 1 / 2), (carol, 1 / 4)]
     = [(alice, 1), (bob, 1 / 2)]
   \<and> apply_threshold (default_config\<lparr>SIMILARITY_THRESHOLD := 3 / 4\<rparr>)
        [(alice, 1), (bob, 1 / 2), (carol, 1 / 4)] = [(alice, 1)]
   \<and> length [(alice, 1 :: real)] \<le> length [(alice, 1 :: real), (bob, 1 / 2)]"
  using threshold_filtering [of default_config "[(alice, 1), (bob, 1 / 2), (carol, 1 / 4)]"
      "default_config\<lparr>SIMILARITY_THRESHOLD := 3 / 4\<rparr>"]
  by (simp add: apply_threshold_def default_config_def)

lemma search_names_sound:
  assumes "search_names probe m qv k names = (ev, Inr rs)" and "p \<in> set rs"
  shows "\<exists>name \<in> set names. \<exists>idx r. get_index m name = Inr idx
           \<and> search probe idx qv k = Inr r \<and> p \<in> set r"
  using assms
proof (induction names arbitrary: ev rs)
  case Nil
  then show ?case by simp
next
  case (Cons name names)
  from Cons.prems(1) obtain idx where gi: "get_index m name = Inr idx"
    by (cases "get_index m name") auto
  from Cons.prems(1) gi obtain r where sr: "search probe idx qv k = Inr r"
    by (cases "search probe idx qv k") auto
  obtain ev' res' where rest: "search_names probe m qv k names = (ev', res')"
    by (cases "search_names probe m qv k names") auto
  from Cons.prems(1) gi sr rest obtain rs' where rs': "res' = Inr rs'" "rs = r @ rs'"
    by (cases res') auto
  from Cons.prems(2) rs'(2) have "p \<in> set r \<or> p \<in> set rs'" by auto
  then show ?case
  proof
    assume "p \<in> set r"
    then show ?thesis using gi sr by auto
  next
    assume "p \<in> set rs'"
    then show ?thesis using Cons.IH [of ev' rs'] rest rs'(1) by auto
  qed
qed

lemma search_total:
  assumes "consistent s" and "ix_trained (index s)" and "length q = ix_d (index s)" and "0 < k"
  shows "\<exists>r. search probe s q k = Inr r"
proof (cases "ntotal (index s) = 0")
  case True
  then show ?thesis by (simp add: search_def)
next
  case False
  from assms(2-4) obtain hits where h: "faiss_search probe (index s) q k = Inr hits"
    by (simp add: faiss_search_def Let_def)
  have "\<forall>(i, d) \<in> set hits. - int (length (documents s)) \<le> i \<and> i < int (length (documents s))"
  proof (intro ballI, clarify)
    fix i d
    assume "(i, d) \<in> set hits"
    from faiss_search_hits [OF h this] assms(1) False
    show "- int (length (documents s)) \<le> i \<and> i < int (length (documents s))"
      by (auto simp: consistent_def ntotal_def Suc_le_eq)
  qed
  from prepare_results_in_range [OF this] h False show ?thesis
    by (simp add: search_def)
qed

lemma search_names_total:
  assumes "\<forall>name \<in> set names. \<exists>idx. get_index m name = Inr idx \<and> consistent idx
             \<and> ix_trained (index idx) \<and> length qv = ix_d (index idx)"
    and "0 < k"
  shows "\<exists>ev rs. search_names probe m qv k names = (ev, Inr rs)"
  using assms(1)
proof (induction names)
  case Nil
  then show ?case by simp
next
  case (Cons name names)
  then obtain idx where gi: "get_index m name = Inr idx" "consistent idx"
    "ix_trained (index idx)" "length qv = ix_d (index idx)" by auto
  obtain r where sr: "search probe idx qv k = Inr r"
    using search_total [OF gi(2,3,4) assms(2)] by blast
  obtain ev rs where "search_names probe m qv k names = (ev, Inr rs)"
    using Cons by auto
  then show ?case using gi(1) sr by simp
qed

lemma sorted_desc_sort_key:
  "sorted_wrt (\<lambda>a b. snd b \<le> snd a) (sort_key (\<lambda>x. - snd x) (xs :: ('a \<times> real) list))"
proof -
  have "sorted (map (\<lambda>x. - snd x) (sort_key (\<lambda>x. - snd x) xs))"
    by (rule sorted_sort_key)
  then show ?thesis by (simp add: sorted_map)
qed

text \<open>
  Claim C4. Whenever the semantic search over all categories returns, its result has at
  most \<open>k\<close> pairs, is sorted in descending similarity, and each of its pairs occurs,
  with the same similarity, in what the index of one of the three categories returns for
  \<open>search(query_vector, k)\<close>. It does return when \<open>k\<close> is positive and every
  category index is trained, holds as many documents as vectors and has the dimension of
  the query vector.
\<close>

theorem query_semantic_merge:
  "(\<forall>ev res. query_semantic e sys query_text ''all'' k = (ev, Inr res) \<longrightarrow>
      length res \<le> k
      \<and> sorted_wrt (\<lambda>a b. snd b \<le> snd a) res
      \<and> (\<forall>p \<in> set res. \<exists>name \<in> {''employees'', ''attendance'', ''leave''}. \<exists>idx r.
            get_index (index_manager sys) name = Inr idx
            \<and> search (ivf_probe e) idx (generate_embedding e query_text) k = Inr r
            \<and> p \<in> set r))
   \<and> ((0 < k \<and> (\<forall>name \<in> {''employees'', ''attendance'', ''leave''}. \<exists>idx.
            get_index (index_manager sys) name = Inr idx \<and> consistent idx
            \<and> ix_trained (index idx)
            \<and> length (generate_embedding e query_text) = ix_d (index idx)))
        \<longrightarrow> (\<exists>ev res. query_semantic e sys query_text ''all'' k = (ev, Inr res)))"
proof (intro conjI allI impI)
  fix ev res
  assume q: "query_semantic e sys query_text ''all'' k = (ev, Inr res)"
  let ?qv = "generate_embedding e query_text"
  let ?names = "[''employees'', ''attendance'', ''leave'']"
  obtain ev' r' where sn: "search_names (ivf_probe e) (index_manager sys) ?qv k ?names = (ev', r')"
    by (cases "search_names (ivf_probe e) (index_manager sys) ?qv k ?names") auto
  from q sn obtain rs where rs: "r' = Inr rs" "res = take k (sort_key (\<lambda>x. - snd x) rs)"
    by (cases r') (auto simp: query_semantic_def Let_def)
  show "length res \<le> k" using rs(2) by simp
  show "sorted_wrt (\<lambda>a b. snd b \<le> snd a) res"
    unfolding rs(2) by (rule sorted_wrt_take) (rule sorted_desc_sort_key)
  show "\<forall>p \<in> set res. \<exists>name \<in> {''employees'', ''attendance'', ''leave''}. \<exists>idx r.
            get_index (index_manager sys) name = Inr idx
            \<and> search (ivf_probe e) idx ?qv k = Inr r \<and> p \<in> set r"
  proof
    fix p
    assume "p \<in> set res"
    then have "p \<in> set (sort_key (\<lambda>x. - snd x) rs)"
      unfolding rs(2) by (rule in_set_takeD)
    then have "p \<in> set rs" by simp
    from search_names_sound [OF sn [unfolded rs(1)] this]
    show "\<exists>name \<in> {''employees'', ''attendance'', ''leave''}. \<exists>idx r.
            get_index (index_manager sys) name = Inr idx
            \<and> search (ivf_probe e) idx ?qv k = Inr r \<and> p \<in> set r"
      by simp
  qed
next
  let ?qv = "generate_embedding e query_text"
  let ?names = "[''employees'', ''attendance'', ''leave'']"
  assume a: "0 < k \<and> (\<forall>name \<in> {''employees'', ''attendance'', ''leave''}. \<exists>idx.
            get_index (index_manager sys) name = Inr idx \<and> consistent idx
            \<and> ix_trained (index idx) \<and> length ?qv = ix_d (index idx))"
  then have "\<forall>name \<in> set ?names. \<exists>idx. get_index (index_manager sys) name = Inr idx
       \<and> consistent idx \<and> ix_trained (index idx) \<and> length ?qv = ix_d (index idx)"
    by simp
  from search_names_total [OF this, of k "ivf_probe e"] a
  obtain ev rs where "search_names (ivf_probe e) (index_manager sys) ?qv k ?names = (ev, Inr rs)"
    by blast
  then show "\<exists>ev res. query_semantic e sys query_text ''all'' k = (ev, Inr res)"
    by (simp add: query_semantic_def Let_def)
qed

lemma staff_get_index:
  "get_index (index_manager staff_system) ''employees'' = Inr staff_store"
  "get_index (index_manager staff_system) ''attendance'' = Inr empty_flat"
  "get_index (index_manager staff_system) ''leave'' = Inr empty_flat"
  by (simp_all add: get_index_def staff_system_def)

lemma empty_flat_search: "search p empty_flat q k = Inr []"
  by (simp add: search_def empty_flat_def IndexFlatL2_def ntotal_def)

lemma staff_semantic_2:
  "query_semantic origin_env staff_system t ''all'' 2 =
     ([Embed t, Search ''employees'', Search ''attendance'', Search ''leave''],
      Inr [(alice, 1), (bob, 1 / 2)])"
proof -
  have g: "generate_embedding origin_env t = [0, 0, 0]"
    by (simp add: generate_embedding_def origin_env_def)
  show ?thesis
    by (simp add: query_semantic_def g staff_get_index staff_search_2 empty_flat_search)
qed

lemma staff_semantic_5:
  "query_semantic origin_env staff_system t ''all'' 5 =
     ([Embed t, Search ''employees'', Search ''attendance'', Search ''leave''],
      Inr [(alice, 1), (bob, 1 / 2), (carol, 1 / 4),
           (carol, similarity FLT_MAX), (carol, similarity FLT_MAX)])"
proof -
  have g: "generate_embedding origin_env t = [0, 0, 0]"
    by (simp add: generate_embedding_def origin_env_def)
  show ?thesis
    by (simp add: query_semantic_def g staff_get_index staff_search_5 empty_flat_search
        similarity_FLT_MAX)
qed

theorem query_semantic_merge_witness:
  "query_semantic origin_env staff_system ''who is in sales'' ''all'' 2 =
     ([Embed ''who is in sales'', Search ''employees'', Search ''attendance'', Search ''leave''],
      Inr [(alice, 1), (bob, 1 / 2)])
   \<and> length [(alice, 1 :: real), (bob, 1 / 2)] \<le> 2
   \<and> sorted_wrt (\<lambda>a b. snd b \<le> snd a) [(alice, 1 :: real), (bob, 1 / 2)]
   \<and> get_index (index_manager staff_system) ''employees'' = Inr staff_store
   \<and> search (ivf_probe origin_env) staff_store
        (generate_embedding origin_env ''who is in sales'') 2
      = Inr [(alice, 1), (bob, 1 / 2)]"
proof -
  have q: "query_semantic origin_env staff_system ''who is in sales'' ''all'' 2 =
     ([Embed ''who is in sales'', Search ''employees'', Search ''attendance'', Search ''leave''],
      Inr [(alice, 1), (bob, 1 / 2)])"
    by (rule staff_semantic_2)
  have g: "generate_embedding origin_env ''who is in sales'' = [0, 0, 0]"
    by (simp add: generate_embedding_def origin_env_def)
  from query_semantic_merge [of origin_env staff_system "''who is in sales''" 2] q
  have "length [(alice, 1 :: real), (bob, 1 / 2)] \<le> 2
     \<and> sorted_wrt (\<lambda>a b. snd b \<le> snd a) [(alice, 1 :: real), (bob, 1 / 2)]"
    by blast
  then show ?thesis using q g staff_get_index(1) staff_search_2 by simp
qed

lemma query_structured_hit:
  assumes "try_structured_query (db sys) qt = (ev, Some docs)" and "docs \<noteq> []"
  shows "query e cfg sys qt True =
     (ev @ [Generate (build_hr_query_prompt e qt docs (take 2000 (policy_text sys)))],
      Inr ((format_response
              (generate_response (build_hr_query_prompt e qt docs (take 2000 (policy_text sys))))
              docs (9 / 10))\<lparr>search_method := ''structured''\<rparr>))"
  using assms by (simp add: query_def results_empty_def Let_def)

lemma query_semantic_fallback:
  assumes "use_structured \<longrightarrow> snd (try_structured_query (db sys) qt) = None"
    and "query_semantic e sys qt ''all'' (TOP_K_RESULTS cfg) = (ev2, Inr sem)"
  shows "query e cfg sys qt use_structured =
     (if apply_threshold cfg sem = []
      then ((if use_structured then fst (try_structured_query (db sys) qt) else []) @ ev2,
            Inr (no_information ''semantic''))
      else ((if use_structured then fst (try_structured_query (db sys) qt) else []) @ ev2
              @ [Generate (build_hr_query_prompt e qt (map fst (apply_threshold cfg sem))
                             (take 2000 (policy_text sys)))],
            Inr ((format_response
                    (generate_response
                       (build_hr_query_prompt e qt (map fst (apply_threshold cfg sem))
                          (take 2000 (policy_text sys))))
                    (map fst (apply_threshold cfg sem))
                    (mean (map snd (apply_threshold cfg sem))))\<lparr>search_method := ''semantic''\<rparr>)))"
proof (cases use_structured)
  case True
  with assms(1) obtain ev where "try_structured_query (db sys) qt = (ev, None)"
    by (cases "try_structured_query (db sys) qt") auto
  then show ?thesis using True assms(2)
    by (simp add: query_def results_empty_def Let_def)
next
  case False
  then show ?thesis using assms(2)
    by (simp add: query_def results_empty_def Let_def)
qed

section \<open>Answering a query\<close>

lemma try_structured_events:
  "x \<in> set (fst (try_structured_query d qt)) \<Longrightarrow> \<exists>c i. x = DbFindOne c i"
  by (auto simp: try_structured_query_def Let_def split: option.splits)

lemma search_names_events:
  "search_names probe m qv k names = (ev, r) \<Longrightarrow> x \<in> set ev \<Longrightarrow> \<exists>n. x = Search n"
proof (induction names arbitrary: ev r)
  case Nil
  then show ?case by simp
next
  case (Cons name names)
  obtain ev' r' where rest: "search_names probe m qv k names = (ev', r')"
    by (cases "search_names probe m qv k names") auto
  from Cons.prems(1) rest have "set ev \<subseteq> insert (Search name) (set ev')"
    by (auto split: sum.splits)
  with Cons.prems(2) have "x = Search name \<or> x \<in> set ev'" by auto
  then show ?case using Cons.IH [OF rest] by auto
qed

lemma query_semantic_events:
  assumes "query_semantic e sys qt nm k = (ev, r)" and "x \<in> set ev"
  shows "(\<exists>t. x = Embed t) \<or> (\<exists>n. x = Search n)"
proof (cases "nm = ''all''")
  case True
  let ?sn = "search_names (ivf_probe e) (index_manager sys) (generate_embedding e qt) k
               [''employees'', ''attendance'', ''leave'']"
  obtain ev' r' where sn: "?sn = (ev', r')" by (cases ?sn) auto
  from assms(1) True sn have "ev = Embed qt # ev'"
    by (auto simp: query_semantic_def Let_def split: sum.splits)
  with assms(2) have "x = Embed qt \<or> x \<in> set ev'" by auto
  then show ?thesis using search_names_events [OF sn] by auto
next
  case False
  from assms(1) False have "set ev \<subseteq> {Embed qt, Search nm}"
    by (auto simp: query_semantic_def Let_def split: sum.splits)
  with assms(2) show ?thesis by auto
qed

lemma find_one_holds:
  assumes "find_one d c [(k, v)] = Some doc"
  shows "map_of doc k = Some v"
  using assms by (auto simp: find_one_def find_Some_iff)

text \<open>
  Claim C3, as amended. When the leftmost employee-identifier token of the lower-cased
  query (\<open>emp\<close> followed by all the digits that follow it) names, in upper case, the
  \<open>emp_id\<close> of a record of the structured store, \<open>query\<close> with structured search
  enabled answers with method \<open>structured\<close>, confidence 0.9 and exactly that record as
  its sources, and neither the embedding model nor any vector index is called.
\<close>

theorem structured_short_circuit:
  assumes "re_search_emp (map char_lower query_text) = Some m"
    and "find_one (db sys) ''employees'' [(''emp_id'', Text (map char_upper m))] = Some doc"
  shows "\<exists>evs r. query e cfg sys query_text True = (evs, Inr r)
           \<and> search_method r = ''structured'' \<and> confidence r = 9 / 10 \<and> sources r = [doc]
           \<and> (\<forall>t. Embed t \<notin> set evs) \<and> (\<forall>n. Search n \<notin> set evs)"
proof -
  have "map_of doc ''emp_id'' = Some (Text (map char_upper m))"
    using assms(2) by (rule find_one_holds)
  then have ne: "doc \<noteq> []" by auto
  have ts: "try_structured_query (db sys) query_text
          = ([DbFindOne ''employees'' (map char_upper m)], Some [doc])"
    using assms ne by (simp add: try_structured_query_def Let_def)
  have ne': "[doc] \<noteq> []" by simp
  show ?thesis
    unfolding query_structured_hit [OF ts ne', of e cfg]
    by (simp add: format_response_def)
qed

lemma lower_example: "map char_lower ''Employee EMP1001'' = ''employee emp1001''"
  by (simp add: char_lower_def)

lemma search_example: "re_search_emp ''employee emp1001'' = Some ''emp1001''"
  by (simp add: match_emp_here_def is_digit_def)

lemma upper_example: "map char_upper ''emp1001'' = ''EMP1001''"
  by (simp add: char_upper_def)

lemma find_alice:
  "find_one (db staff_system) ''employees'' [(''emp_id'', Text ''EMP1001'')] = Some alice"
  by (simp add: find_one_def staff_system_def staff_db_def alice_def)

theorem structured_short_circuit_witness:
  "re_search_emp (map char_lower ''Employee EMP1001'') = Some ''emp1001''
   \<and> find_one (db staff_system) ''employees'' [(''emp_id'', Text (map char_upper ''emp1001''))]
       = Some alice
   \<and> (\<exists>evs r. query origin_env default_config staff_system ''Employee EMP1001'' True = (evs, Inr r)
           \<and> search_method r = ''structured'' \<and> confidence r = 9 / 10 \<and> sources r = [alice]
           \<and> (\<forall>t. Embed t \<notin> set evs) \<and> (\<forall>n. Search n \<notin> set evs))"
proof -
  have a: "re_search_emp (map char_lower ''Employee EMP1001'') = Some ''emp1001''"
    by (simp only: lower_example search_example)
  have b: "find_one (db staff_system) ''employees''
             [(''emp_id'', Text (map char_upper ''emp1001''))] = Some alice"
    by (simp only: upper_example find_alice)
  from structured_short_circuit [OF a b, of origin_env default_config] a b
  show ?thesis by blast
qed

lemma try_two:
  "try_structured_query (db staff_system) ''emp9 and emp1001''
     = ([DbFindOne ''employees'' ''EMP9''], None)"
  by (simp add: try_structured_query_def Let_def char_lower_def char_upper_def
      match_emp_here_def is_digit_def find_one_def staff_system_def staff_db_def
      alice_def bob_def carol_def)

lemma staff_threshold:
  "apply_threshold default_config
     [(alice, 1), (bob, 1 / 2), (carol, 1 / 4),
      (carol, similarity FLT_MAX), (carol, similarity FLT_MAX)]
   = [(alice, 1), (bob, 1 / 2)]"
  by (simp add: apply_threshold_def default_config_def similarity_FLT_MAX)

text \<open>
  Claim C3 as stated fails: the query \<open>emp9 and emp1001\<close> contains the token
  \<open>emp1001\<close>, for which the store holds Alice's record, yet only the first token
  \<open>emp9\<close> is looked up, nothing is found, the embedding model and the three indexes
  are called, and the answer is stamped \<open>semantic\<close>.
\<close>

theorem first_token_only_counterexample:
  "find_one (db staff_system) ''employees'' [(''emp_id'', Text ''EMP1001'')] = Some alice
   \<and> take 5 (fst (query origin_env default_config staff_system ''emp9 and emp1001'' True))
       = [DbFindOne ''employees'' ''EMP9'', Embed ''emp9 and emp1001'',
          Search ''employees'', Search ''attendance'', Search ''leave'']
   \<and> map_sum id search_method
        (snd (query origin_env default_config staff_system ''emp9 and emp1001'' True))
       = Inr ''semantic''"
proof -
  have k: "TOP_K_RESULTS default_config = 5" by (simp add: default_config_def)
  have ns: "True \<longrightarrow> snd (try_structured_query (db staff_system) ''emp9 and emp1001'') = None"
    by (simp add: try_two)
  have sem: "query_semantic origin_env staff_system ''emp9 and emp1001'' ''all''
               (TOP_K_RESULTS default_config)
     = ([Embed ''emp9 and emp1001'', Search ''employees'', Search ''attendance'', Search ''leave''],
        Inr [(alice, 1), (bob, 1 / 2), (carol, 1 / 4),
             (carol, similarity FLT_MAX), (carol, similarity FLT_MAX)])"
    unfolding k by (rule staff_semantic_5)
  show ?thesis
    unfolding query_semantic_fallback [OF ns sem]
    by (simp add: staff_threshold try_two find_alice format_response_def)
qed

text \<open>
  Claim C6. When the structured attempt yields nothing, the semantic search returns and
  at least one of its results survives the threshold, the response is stamped
  \<open>semantic\<close>, its sources are the surviving documents and its confidence is the sum
  of the surviving similarities divided by their number.
\<close>

theorem semantic_confidence_is_mean:
  assumes "use_structured \<longrightarrow> snd (try_structured_query (db sys) query_text) = None"
    and "query_semantic e sys query_text ''all'' (TOP_K_RESULTS cfg) = (ev, Inr sem)"
    and "apply_threshold cfg sem \<noteq> []"
  shows "\<exists>evs r. query e cfg sys query_text use_structured = (evs, Inr r)
           \<and> search_method r = ''semantic''
           \<and> sources r = map fst (apply_threshold cfg sem)
           \<and> confidence r = sum_list (map snd (apply_threshold cfg sem))
                              / real (length (apply_threshold cfg sem))"
  unfolding query_semantic_fallback [OF assms(1,2)]
  using assms(3) by (simp add: format_response_def mean_def)

theorem semantic_confidence_is_mean_witness:
  "snd (try_structured_query (db staff_system) ''who is in sales'') = None
   \<and> apply_threshold default_config
       [(alice, 1), (bob, 1 / 2), (carol, 1 / 4),
        (carol, similarity FLT_MAX), (carol, similarity FLT_MAX)]
      = [(alice, 1), (bob, 1 / 2)]
   \<and> (\<exists>evs r. query origin_env default_config staff_system ''who is in sales'' True = (evs, Inr r)
         \<and> search_method r = ''semantic'' \<and> sources r = [alice, bob]
         \<and> confidence r = 3 / 4)
   \<and> mean [9 / 10, 2 / 5] = 13 / 20"
proof -
  have k: "TOP_K_RESULTS default_config = 5" by (simp add: default_config_def)
  have ns: "snd (try_structured_query (db staff_system) ''who is in sales'') = None"
    by (simp add: try_structured_query_def Let_def char_lower_def match_emp_here_def)
  then have ns': "True \<longrightarrow> snd (try_structured_query (db staff_system) ''who is in sales'') = None"
    by simp
  have sem: "query_semantic origin_env staff_system ''who is in sales'' ''all''
               (TOP_K_RESULTS default_config)
     = ([Embed ''who is in sales'', Search ''employees'', Search ''attendance'', Search ''leave''],
        Inr [(alice, 1), (bob, 1 / 2), (carol, 1 / 4),
             (carol, similarity FLT_MAX), (carol, similarity FLT_MAX)])"
    unfolding k by (rule staff_semantic_5)
  have th: "apply_threshold default_config
       [(alice, 1), (bob, 1 / 2), (carol, 1 / 4),
        (carol, similarity FLT_MAX), (carol, similarity FLT_MAX)] \<noteq> []"
    by (simp add: staff_threshold)
  from semantic_confidence_is_mean [OF ns' sem th]
  have "\<exists>evs r. query origin_env default_config staff_system ''who is in sales'' True = (evs, Inr r)
         \<and> search_method r = ''semantic'' \<and> sources r = [alice, bob]
         \<and> confidence r = 3 / 4"
    by (simp add: staff_threshold)
  moreover have "mean [9 / 10, 2 / 5] = 13 / 20" by (simp add: mean_def)
  ultimately show ?thesis using ns staff_threshold by blast
qed

lemma search_names_empty:
  assumes "\<forall>name \<in> set names. \<exists>idx. get_index m name = Inr idx \<and> ntotal (index idx) = 0"
  shows "\<exists>ev. search_names probe m qv k names = (ev, Inr [])"
  using assms
proof (induction names)
  case Nil
  then show ?case by simp
next
  case (Cons name names)
  then obtain idx where gi: "get_index m name = Inr idx" "ntotal (index idx) = 0" by auto
  have sr: "search probe idx qv k = Inr []" using gi(2) by (simp add: search_def)
  obtain ev where "search_names probe m qv k names = (ev, Inr [])" using Cons by auto
  then show ?case using gi(1) sr by simp
qed

lemma query_semantic_empty:
  assumes "\<forall>name \<in> {''employees'', ''attendance'', ''leave''}. \<exists>idx.
             get_index (index_manager sys) name = Inr idx \<and> ntotal (index idx) = 0"
  shows "\<exists>ev. query_semantic e sys qt ''all'' k = (ev, Inr [])"
proof -
  from assms have "\<forall>name \<in> set [''employees'', ''attendance'', ''leave'']. \<exists>idx.
             get_index (index_manager sys) name = Inr idx \<and> ntotal (index idx) = 0"
    by simp
  from search_names_empty [OF this]
  obtain ev where "search_names (ivf_probe e) (index_manager sys) (generate_embedding e qt) k
                     [''employees'', ''attendance'', ''leave''] = (ev, Inr [])"
    by blast
  then show ?thesis by (simp add: query_semantic_def Let_def)
qed

lemma below_threshold_empty:
  assumes "\<forall>(doc, sim) \<in> set sem. sim < SIMILARITY_THRESHOLD cfg"
  shows "apply_threshold cfg sem = []"
  using assms by (auto simp: apply_threshold_def filter_empty_conv)

lemma no_results_from_semantic:
  assumes ns: "use_structured \<longrightarrow> snd (try_structured_query (db sys) query_text) = None"
    and sem: "query_semantic e sys query_text ''all'' (TOP_K_RESULTS cfg) = (ev, Inr sem)"
    and below: "\<forall>(doc, sim) \<in> set sem. sim < SIMILARITY_THRESHOLD cfg"
  shows "\<exists>evs. query e cfg sys query_text use_structured = (evs, Inr (no_information ''semantic''))
           \<and> (\<forall>p. Generate p \<notin> set evs)"
proof -
  let ?ev1 = "if use_structured then fst (try_structured_query (db sys) query_text) else []"
  have q: "query e cfg sys query_text use_structured = (?ev1 @ ev, Inr (no_information ''semantic''))"
    unfolding query_semantic_fallback [OF ns sem]
    using below_threshold_empty [OF below] by simp
  have "Generate p \<notin> set (?ev1 @ ev)" for p
  proof
    assume "Generate p \<in> set (?ev1 @ ev)"
    then have "Generate p \<in> set ?ev1 \<or> Generate p \<in> set ev" by simp
    then show False
    proof
      assume "Generate p \<in> set ?ev1"
      then have "Generate p \<in> set (fst (try_structured_query (db sys) query_text))"
        by (simp split: if_splits)
      from try_structured_events [OF this] show False by auto
    next
      assume "Generate p \<in> set ev"
      from query_semantic_events [OF sem this] show False by auto
    qed
  qed
  with q show ?thesis by blast
qed

text \<open>
  Claim C8. When the structured attempt yields nothing and every semantic result is below
  the threshold, or all three indexes are empty, \<open>query\<close> returns a response (it
  does not raise) whose answer is the no-relevant-information message, whose confidence
  is 0 and whose sources are empty, and the language model is not called.
\<close>

theorem no_results_outcome:
  assumes "use_structured \<longrightarrow> snd (try_structured_query (db sys) query_text) = None"
  shows "((\<exists>ev sem. query_semantic e sys query_text ''all'' (TOP_K_RESULTS cfg) = (ev, Inr sem)
              \<and> (\<forall>(doc, sim) \<in> set sem. sim < SIMILARITY_THRESHOLD cfg))
          \<or> (\<forall>name \<in> {''employees'', ''attendance'', ''leave''}. \<exists>idx.
                get_index (index_manager sys) name = Inr idx \<and> ntotal (index idx) = 0))
         \<longrightarrow> (\<exists>evs r. query e cfg sys query_text use_structured = (evs, Inr r)
                \<and> answer r = ''No relevant information found. Please rephrase your question.''
                \<and> confidence r = 0 \<and> sources r = [] \<and> search_method r = ''semantic''
                \<and> (\<forall>p. Generate p \<notin> set evs))"
proof
  assume "(\<exists>ev sem. query_semantic e sys query_text ''all'' (TOP_K_RESULTS cfg) = (ev, Inr sem)
              \<and> (\<forall>(doc, sim) \<in> set sem. sim < SIMILARITY_THRESHOLD cfg))
          \<or> (\<forall>name \<in> {''employees'', ''attendance'', ''leave''}. \<exists>idx.
                get_index (index_manager sys) name = Inr idx \<and> ntotal (index idx) = 0)"
  then have "\<exists>ev sem. query_semantic e sys query_text ''all'' (TOP_K_RESULTS cfg) = (ev, Inr sem)
              \<and> (\<forall>(doc, sim) \<in> set sem. sim < SIMILARITY_THRESHOLD cfg)"
  proof
    assume "\<exists>ev sem. query_semantic e sys query_text ''all'' (TOP_K_RESULTS cfg) = (ev, Inr sem)
              \<and> (\<forall>(doc, sim) \<in> set sem. sim < SIMILARITY_THRESHOLD cfg)"
    then show ?thesis .
  next
    assume "\<forall>name \<in> {''employees'', ''attendance'', ''leave''}. \<exists>idx.
                get_index (index_manager sys) name = Inr idx \<and> ntotal (index idx) = 0"
    from query_semantic_empty [OF this]
    obtain ev where "query_semantic e sys query_text ''all'' (TOP_K_RESULTS cfg) = (ev, Inr [])"
      by blast
    then show ?thesis by auto
  qed
  then obtain ev sem
    where sem: "query_semantic e sys query_text ''all'' (TOP_K_RESULTS cfg) = (ev, Inr sem)"
      and below: "\<forall>(doc, sim) \<in> set sem. sim < SIMILARITY_THRESHOLD cfg"
    by blast
  from no_results_from_semantic [OF assms sem below]
  obtain evs where "query e cfg sys query_text use_structured = (evs, Inr (no_information ''semantic''))"
    "\<forall>p. Generate p \<notin> set evs" by blast
  then show "\<exists>evs r. query e cfg sys query_text use_structured = (evs, Inr r)
                \<and> answer r = ''No relevant information found. Please rephrase your question.''
                \<and> confidence r = 0 \<and> sources r = [] \<and> search_method r = ''semantic''
                \<and> (\<forall>p. Generate p \<notin> set evs)"
    by (simp add: no_information_def)
qed

lemma new_system_indexes:
  "index_manager (new_system d 3) =
     \<lparr>mgr_dimension = 3,
      indexes = [(''employees'', empty_flat), (''attendance'', empty_flat), (''leave'', empty_flat)]\<rparr>"
  by (simp add: new_system_def new_manager_def create_index_def new_store_def
      store_create_index_def empty_flat_def)

theorem no_results_outcome_witness:
  "snd (try_structured_query (db (new_system staff_db 3)) ''who is in sales'') = None
   \<and> get_index (index_manager (new_system staff_db 3)) ''employees'' = Inr empty_flat
   \<and> get_index (index_manager (new_system staff_db 3)) ''attendance'' = Inr empty_flat
   \<and> get_index (index_manager (new_system staff_db 3)) ''leave'' = Inr empty_flat
   \<and> ntotal (index empty_flat) = 0
   \<and> (\<exists>evs r. query origin_env default_config (new_system staff_db 3) ''who is in sales'' True
                  = (evs, Inr r)
          \<and> answer r = ''No relevant information found. Please rephrase your question.''
          \<and> confidence r = 0 \<and> sources r = [] \<and> search_method r = ''semantic''
          \<and> (\<forall>p. Generate p \<notin> set evs))"
proof -
  let ?sys = "new_system staff_db 3"
  have ns: "snd (try_structured_query (db ?sys) ''who is in sales'') = None"
    by (simp add: try_structured_query_def Let_def char_lower_def match_emp_here_def)
  then have ns': "True \<longrightarrow> snd (try_structured_query (db ?sys) ''who is in sales'') = None"
    by simp
  have gi: "get_index (index_manager ?sys) ''employees'' = Inr empty_flat"
    "get_index (index_manager ?sys) ''attendance'' = Inr empty_flat"
    "get_index (index_manager ?sys) ''leave'' = Inr empty_flat"
    by (simp_all add: new_system_indexes get_index_def)
  have nt: "ntotal (index empty_flat) = 0"
    by (simp add: empty_flat_def IndexFlatL2_def ntotal_def)
  have emp: "\<forall>name \<in> {''employees'', ''attendance'', ''leave''}. \<exists>idx.
                get_index (index_manager ?sys) name = Inr idx \<and> ntotal (index idx) = 0"
    using gi nt by simp
  from no_results_outcome [OF ns', of origin_env default_config] emp
  have "\<exists>evs r. query origin_env default_config ?sys ''who is in sales'' True = (evs, Inr r)
          \<and> answer r = ''No relevant information found. Please rephrase your question.''
          \<and> confidence r = 0 \<and> sources r = [] \<and> search_method r = ''semantic''
          \<and> (\<forall>p. Generate p \<notin> set evs)"
    by blast
  then show ?thesis using ns gi nt by blast
qed

section \<open>The count invariant of a store\<close>

lemma clear_consistent:
  assumes "index_type s = ''flat'' \<or> index_type s = ''ivf''"
  shows "consistent (fst (clear s))"
  using assms
  by (auto simp: clear_def consistent_def ntotal_def store_create_index_def Let_def
      IndexFlatL2_def IndexIVFFlat_def)

lemma add_documents_index_type: "index_type (fst (add_documents s docs)) = index_type s"
  by (auto simp: add_documents_def split: sum.splits)

lemma clear_index_type: "index_type (fst (clear s)) = index_type s"
  by (auto simp: clear_def Let_def split: sum.splits)

lemma store_ops_consistent:
  assumes "new_store dm ty = Inr s0"
  shows "total_vectors (get_stats (foldl apply_store_op s0 ops))
       = total_documents (get_stats (foldl apply_store_op s0 ops))"
proof -
  have ty: "index_type s0 = ''flat'' \<or> index_type s0 = ''ivf''" and c0: "consistent s0"
    using assms
    by (auto simp: new_store_def store_create_index_def consistent_def ntotal_def
        IndexFlatL2_def IndexIVFFlat_def split: if_splits)
  have "consistent (foldl apply_store_op s ops)
        \<and> (index_type (foldl apply_store_op s ops) = ''flat''
            \<or> index_type (foldl apply_store_op s ops) = ''ivf'')"
    if "consistent s" and "index_type s = ''flat'' \<or> index_type s = ''ivf''" for s
    using that
  proof (induction ops arbitrary: s)
    case Nil
    then show ?case by simp
  next
    case (Cons op ops)
    have "consistent (apply_store_op s op)"
      using Cons.prems by (cases op) (simp_all add: add_documents_consistent clear_consistent)
    moreover have "index_type (apply_store_op s op) = index_type s"
      by (cases op) (simp_all add: add_documents_index_type clear_index_type)
    ultimately show ?case using Cons.IH [of "apply_store_op s op"] Cons.prems(2) by simp
  qed
  from this [OF c0 ty] show ?thesis by (simp add: consistent_def get_stats_def)
qed

section \<open>Loading persisted indexes\<close>

lemma new_store_flat:
  "new_store dm ''flat'' = Inr \<lparr>dimension = dm, index_type = ''flat'', documents = [],
                                 index = IndexFlatL2 dm\<rparr>"
  by (simp add: new_store_def store_create_index_def)

lemma load_readable:
  assumes "fs ip = Some (IndexFile ix)" and "fs dp = Some (PickleFile docs)"
  shows "load st ip dp fs = (st\<lparr>index := ix, documents := docs\<rparr>, None)"
  using assms by (simp add: load_def)

text \<open>
  Claim C9, as amended. Provided every category of the list whose two artifacts both exist
  has artifacts that can be read, \<open>load_all\<close> raises nothing; a category is loaded
  exactly when both its index artifact and its documents artifact exist, and is then
  registered with the index and the documents of its files; a category with a missing
  artifact is skipped without any error, the registry keeping whatever was registered
  under that name, and that does not stop any other category from being loaded.
\<close>

theorem load_all_isolation:
  assumes "\<forall>name \<in> set names.
             fs (index_path base name) \<noteq> None \<and> fs (docs_path base name) \<noteq> None \<longrightarrow>
             (\<exists>ix docs. fs (index_path base name) = Some (IndexFile ix)
                       \<and> fs (docs_path base name) = Some (PickleFile docs))"
  shows "\<exists>m'. load_all fs m base names = (m', None)
          \<and> mgr_dimension m' = mgr_dimension m
          \<and> (\<forall>name ix docs.
                name \<in> set names \<and> fs (index_path base name) = Some (IndexFile ix)
                \<and> fs (docs_path base name) = Some (PickleFile docs) \<longrightarrow>
                map_of (indexes m') name
                  = Some \<lparr>dimension = mgr_dimension m, index_type = ''flat'',
                           documents = docs, index = ix\<rparr>)
          \<and> (\<forall>name.
                name \<notin> set names \<or> fs (index_path base name) = None
                \<or> fs (docs_path base name) = None \<longrightarrow>
                map_of (indexes m') name = map_of (indexes m) name)"
  using assms
proof (induction names arbitrary: m)
  case Nil
  then show ?case by simp
next
  case (Cons name0 names)
  have rd: "\<forall>name \<in> set names.
             fs (index_path base name) \<noteq> None \<and> fs (docs_path base name) \<noteq> None \<longrightarrow>
             (\<exists>ix docs. fs (index_path base name) = Some (IndexFile ix)
                       \<and> fs (docs_path base name) = Some (PickleFile docs))"
    using Cons.prems by simp
  show ?case
  proof (cases "fs (index_path base name0) \<noteq> None \<and> fs (docs_path base name0) \<noteq> None")
    case True
    with Cons.prems obtain ix0 docs0
      where f0: "fs (index_path base name0) = Some (IndexFile ix0)"
        "fs (docs_path base name0) = Some (PickleFile docs0)"
      by auto
    let ?st = "\<lparr>dimension = mgr_dimension m, index_type = ''flat'', documents = docs0,
                 index = ix0\<rparr>"
    let ?m1 = "m\<lparr>indexes := AList.update name0 ?st (indexes m)\<rparr>"
    have step: "load_all fs m base (name0 # names) = load_all fs ?m1 base names"
      using True f0 by (simp add: Let_def new_store_flat load_readable [OF f0])
    from Cons.IH [OF rd, of ?m1] obtain m' where
      l: "load_all fs ?m1 base names = (m', None)" and
      d: "mgr_dimension m' = mgr_dimension ?m1" and
      ld: "\<And>name ix docs. name \<in> set names \<Longrightarrow> fs (index_path base name) = Some (IndexFile ix)
            \<Longrightarrow> fs (docs_path base name) = Some (PickleFile docs)
            \<Longrightarrow> map_of (indexes m') name
                  = Some \<lparr>dimension = mgr_dimension ?m1, index_type = ''flat'',
                           documents = docs, index = ix\<rparr>" and
      un: "\<And>name. name \<notin> set names \<or> fs (index_path base name) = None
                \<or> fs (docs_path base name) = None
            \<Longrightarrow> map_of (indexes m') name = map_of (indexes ?m1) name"
      by blast
    have m1: "map_of (indexes ?m1) name = (if name = name0 then Some ?st else map_of (indexes m) name)"
      for name by (simp add: update_conv')
    have A: "map_of (indexes m') name
                  = Some \<lparr>dimension = mgr_dimension m, index_type = ''flat'',
                           documents = docs, index = ix\<rparr>"
      if "name \<in> set (name0 # names)" "fs (index_path base name) = Some (IndexFile ix)"
        "fs (docs_path base name) = Some (PickleFile docs)" for name ix docs
    proof (cases "name \<in> set names")
      case True
      from ld [OF True that(2,3)] show ?thesis by simp
    next
      case False
      with that(1) have eq: "name = name0" by simp
      with that(2,3) f0 have "ix = ix0" "docs = docs0" by simp_all
      moreover have "map_of (indexes m') name = map_of (indexes ?m1) name"
        using un False by blast
      ultimately show ?thesis using eq m1 by simp
    qed
    have B: "map_of (indexes m') name = map_of (indexes m) name"
      if "name \<notin> set (name0 # names) \<or> fs (index_path base name) = None
                \<or> fs (docs_path base name) = None" for name
    proof -
      from that True have ne: "name \<noteq> name0" by auto
      from that have "name \<notin> set names \<or> fs (index_path base name) = None
                \<or> fs (docs_path base name) = None" by auto
      from un [OF this] ne m1 show ?thesis by simp
    qed
    from step l d A B show ?thesis by auto
  next
    case False
    then have step: "load_all fs m base (name0 # names) = load_all fs m base names"
      by (auto simp: Let_def)
    from Cons.IH [OF rd, of m] obtain m' where
      l: "load_all fs m base names = (m', None)" and
      d: "mgr_dimension m' = mgr_dimension m" and
      ld: "\<And>name ix docs. name \<in> set names \<Longrightarrow> fs (index_path base name) = Some (IndexFile ix)
            \<Longrightarrow> fs (docs_path base name) = Some (PickleFile docs)
            \<Longrightarrow> map_of (indexes m') name
                  = Some \<lparr>dimension = mgr_dimension m, index_type = ''flat'',
                           documents = docs, index = ix\<rparr>" and
      un: "\<And>name. name \<notin> set names \<or> fs (index_path base name) = None
                \<or> fs (docs_path base name) = None
            \<Longrightarrow> map_of (indexes m') name = map_of (indexes m) name"
      by blast
    have A: "map_of (indexes m') name
                  = Some \<lparr>dimension = mgr_dimension m, index_type = ''flat'',
                           documents = docs, index = ix\<rparr>"
      if "name \<in> set (name0 # names)" "fs (index_path base name) = Some (IndexFile ix)"
        "fs (docs_path base name) = Some (PickleFile docs)" for name ix docs
    proof -
      from that(2,3) False have "name \<noteq> name0" by auto
      with that(1) have "name \<in> set names" by simp
      from ld [OF this that(2,3)] show ?thesis .
    qed
    have B: "map_of (indexes m') name = map_of (indexes m) name"
      if "name \<notin> set (name0 # names) \<or> fs (index_path base name) = None
                \<or> fs (docs_path base name) = None" for name
    proof (cases "name = name0")
      case True
      show ?thesis
      proof (cases "name0 \<in> set names")
        case in_names: True
        from False True have "fs (index_path base name) = None \<or> fs (docs_path base name) = None"
          by auto
        then show ?thesis using un by blast
      next
        case False
        then show ?thesis using un True by blast
      qed
    next
      case ne: False
      from that ne have "name \<notin> set names \<or> fs (index_path base name) = None
                \<or> fs (docs_path base name) = None" by auto
      then show ?thesis by (rule un)
    qed
    from step l d A B show ?thesis by auto
  qed
qed

lemma saved_paths:
  "index_path ''idx'' ''employees'' = ''idx/employees_index.faiss''"
  "docs_path ''idx'' ''employees'' = ''idx/employees_docs.pkl''"
  "index_path ''idx'' ''attendance'' = ''idx/attendance_index.faiss''"
  "docs_path ''idx'' ''attendance'' = ''idx/attendance_docs.pkl''"
  "index_path ''idx'' ''leave'' = ''idx/leave_index.faiss''"
  "docs_path ''idx'' ''leave'' = ''idx/leave_docs.pkl''"
  by (simp_all add: index_path_def docs_path_def path_join_def)

lemma saved_files:
  "saved_fs (index_path ''idx'' ''employees'') = Some (IndexFile (index staff_store))"
  "saved_fs (docs_path ''idx'' ''employees'') = Some (PickleFile [alice, bob, carol])"
  "saved_fs (index_path ''idx'' ''attendance'') = Some (IndexFile (IndexFlatL2 3))"
  "saved_fs (docs_path ''idx'' ''attendance'') = None"
  "saved_fs (index_path ''idx'' ''leave'') = Some (IndexFile (IndexFlatL2 3))"
  "saved_fs (docs_path ''idx'' ''leave'') = Some (PickleFile [])"
  unfolding saved_paths by (simp_all add: saved_fs_def)

theorem load_all_isolation_witness:
  "saved_fs (index_path ''idx'' ''employees'') = Some (IndexFile (index staff_store))
   \<and> saved_fs (docs_path ''idx'' ''employees'') = Some (PickleFile [alice, bob, carol])
   \<and> saved_fs (docs_path ''idx'' ''attendance'') = None
   \<and> saved_fs (index_path ''idx'' ''leave'') = Some (IndexFile (IndexFlatL2 3))
   \<and> saved_fs (docs_path ''idx'' ''leave'') = Some (PickleFile [])
   \<and> snd (load_all saved_fs (index_manager (new_system staff_db 3)) ''idx''
             [''employees'', ''attendance'', ''leave'']) = None
   \<and> map_of (indexes (fst (load_all saved_fs (index_manager (new_system staff_db 3)) ''idx''
             [''employees'', ''attendance'', ''leave'']))) ''employees'' = Some staff_store
   \<and> map_of (indexes (fst (load_all saved_fs (index_manager (new_system staff_db 3)) ''idx''
             [''employees'', ''attendance'', ''leave'']))) ''attendance'' = Some empty_flat
   \<and> map_of (indexes (fst (load_all saved_fs (index_manager (new_system staff_db 3)) ''idx''
             [''employees'', ''attendance'', ''leave'']))) ''leave'' = Some empty_flat"
proof -
  let ?m = "index_manager (new_system staff_db 3)"
  let ?names = "[''employees'', ''attendance'', ''leave'']"
  have rd: "\<forall>name \<in> set ?names.
             saved_fs (index_path ''idx'' name) \<noteq> None \<and> saved_fs (docs_path ''idx'' name) \<noteq> None \<longrightarrow>
             (\<exists>ix docs. saved_fs (index_path ''idx'' name) = Some (IndexFile ix)
                       \<and> saved_fs (docs_path ''idx'' name) = Some (PickleFile docs))"
    by (simp add: saved_files)
  from load_all_isolation [OF rd, of ?m] obtain m' where
    l: "load_all saved_fs ?m ''idx'' ?names = (m', None)" and
    ld: "\<And>name ix docs. name \<in> set ?names \<Longrightarrow> saved_fs (index_path ''idx'' name) = Some (IndexFile ix)
            \<Longrightarrow> saved_fs (docs_path ''idx'' name) = Some (PickleFile docs)
            \<Longrightarrow> map_of (indexes m') name
                  = Some \<lparr>dimension = mgr_dimension ?m, index_type = ''flat'',
                           documents = docs, index = ix\<rparr>" and
    un: "\<And>name. name \<notin> set ?names \<or> saved_fs (index_path ''idx'' name) = None
                \<or> saved_fs (docs_path ''idx'' name) = None
            \<Longrightarrow> map_of (indexes m') name = map_of (indexes ?m) name"
    by blast
  have e: "map_of (indexes m') ''employees'' = Some staff_store"
    using ld [OF _ saved_files(1) saved_files(2)]
    by (simp add: new_system_indexes staff_store_def)
  have lv: "map_of (indexes m') ''leave'' = Some empty_flat"
    using ld [OF _ saved_files(5) saved_files(6)]
    by (simp add: new_system_indexes empty_flat_def)
  have a: "map_of (indexes m') ''attendance'' = Some empty_flat"
    using un [of "''attendance''"] saved_files(4) by (simp add: new_system_indexes)
  from l e lv a saved_files show ?thesis by simp
qed

text \<open>
  Claim C9 as stated fails: with the documents artifact of \<open>attendance\<close> missing,
  \<open>load_indexes\<close> returns without any error, for that category as for the others;
  the category keeps the empty index the constructor registered, and searching it
  answers the empty list.
\<close>

theorem missing_artifact_counterexample:
  "saved_fs (docs_path ''idx'' ''attendance'') = None
   \<and> load_indexes saved_fs (new_system staff_db 3) ''idx'' = (staff_system, None)
   \<and> get_index (index_manager staff_system) ''attendance'' = Inr empty_flat
   \<and> search (ivf_probe origin_env) empty_flat [0, 0, 0] 5 = Inr []"
proof -
  have l: "load_all saved_fs (index_manager (new_system staff_db 3)) ''idx''
             [''employees'', ''attendance'', ''leave'']
           = (index_manager staff_system, None)"
    by (simp add: new_system_indexes saved_files Let_def new_store_flat load_def
        staff_system_def staff_store_def empty_flat_def)
  have s: "(new_system staff_db 3)\<lparr>index_manager := index_manager staff_system\<rparr> = staff_system"
    by (simp add: new_system_def staff_system_def)
  show ?thesis
    unfolding load_indexes_def l
    by (simp add: s saved_files staff_get_index empty_flat_search)
qed

end
